theory Spec2Isabelle
  imports Complex_Main
begin

section \<open>Data model of the photo-upload store\<close>

text \<open>
  The store of \<^verbatim>\<open>photo-upload/store.tsx\<close> is a zustand store: one state object that
  \<^verbatim>\<open>set\<close> replaces by a copy with some fields overwritten, and that \<^verbatim>\<open>get\<close> reads.
  JavaScript numbers are modelled by their use: byte counts and stage counters are
  integers (\<open>int\<close>), list positions are \<open>nat\<close>, progress fractions are \<open>real\<close>.
  Strings are byte lists; the two Chinese messages of the source are their UTF-8 bytes.
\<close>

record File =
  file_name :: string
  file_size :: int

datatype WorkflowPhase = Ph_review | Ph_uploading | Ph_processing | Ph_completed | Ph_error

datatype EntryStatus = St_pending | St_uploading | St_processing | St_done | St_error

record FileProgressEntry =
  entry_index :: nat
  entry_name :: string
  entry_size :: int
  entry_status :: EntryStatus
  entry_progress :: real
  entry_uploadedBytes :: int

record ProcessingLogEntry =
  log_id :: string
  log_message :: string
  log_level :: string
  log_timestamp :: int

record LatestLog =
  latest_message :: string
  latest_level :: string
  latest_timestamp :: int

text \<open>The status of a stage is the string the source writes: \<^verbatim>\<open>'completed'\<close> or \<^verbatim>\<open>'running'\<close>.\<close>

record StageState =
  stage_status :: string
  stage_processed :: int
  stage_total :: int

text \<open>
  The types of the summary and of the totals of a sync run are declared outside the
  store; they are the type parameters \<open>'s\<close> and \<open>'t\<close>.
\<close>

record ('s, 't) ProcessingState =
  dryRun :: bool
  summary :: 's
  totals :: 't
  stages :: "string \<rightharpoonup> StageState"
  completed :: bool
  error_message :: "string option"
  latestLog :: "LatestLog option"

record ('s, 't) PhotoUploadStoreState =
  files :: "File list"
  totalSize :: int
  uploadedBytes :: int
  availableTags :: "string list"
  selectedTags :: "string list"
  unmatchedMovFiles :: "File list"
  hasMovFile :: bool
  phase :: WorkflowPhase
  uploadEntries :: "FileProgressEntry list"
  uploadError :: "string option"
  processingError :: "string option"
  processingState :: "('s, 't) ProcessingState option"
  processingLogs :: "ProcessingLogEntry list"

text \<open>
  The store together with the variables its closures capture: \<^verbatim>\<open>uploadAbortController\<close>
  (the controllers ever created are numbered; \<open>controllers\<close> holds the aborted flag of
  each) and the module-level counter \<^verbatim>\<open>processingLogSequence\<close>. The counter belongs to
  the module, not to the store: all stores share it, and creating a store does not reset
  it. The record holds its current value as this store finds it.
\<close>

record ('s, 't) PhotoUploadStore =
  state :: "('s, 't) PhotoUploadStoreState"
  uploadAbortController :: "nat option"
  controllers :: "bool list"
  processingLogSequence :: nat

subsection \<open>Inputs from the transport\<close>

record FileProgress =
  snap_index :: nat
  snap_progress :: real
  snap_uploadedBytes :: int

record PhotoUploadProgressSnapshot =
  snapshot_files :: "FileProgress list"

record SyncOptions =
  opt_dryRun :: "bool option"

text \<open>
  The server events, with their payload fields in this order:
  start (summary, totals, options), log (message, level, timestamp),
  stage (stage, status, processed, total, summary), action (stage, index, total, summary),
  error (message), complete (summary). A counter of a payload is \<open>None\<close> when it is
  not a finite integer. \<open>Ev_other\<close> is any event type the reducer has no case for.
\<close>

datatype ('s, 't) PhotoSyncProgressEvent =
    Ev_start 's 't "SyncOptions option"
  | Ev_log string string string
  | Ev_stage string string "int option" "int option" 's
  | Ev_action string "int option" "int option" 's
  | Ev_error string
  | Ev_complete 's
  | Ev_other

text \<open>What a rejected upload promise carries: the \<^verbatim>\<open>name\<close> of the thrown value and its text.\<close>

record ThrownError =
  thrown_name :: "string option"
  thrown_text :: "string option"

datatype UploadOutcome = Resolved | Rejected ThrownError

subsection \<open>Helpers the store imports\<close>

text \<open>
  The helpers of \<^verbatim>\<open>./utils\<close> whose result the store only passes on, and the clock
  function \<^verbatim>\<open>Date.parse\<close> (\<open>None\<close> for NaN), are parameters of the model.
\<close>

record 't Externals =
  normalizeStageCount :: "int option \<Rightarrow> int \<Rightarrow> int"
  createStageStateFromTotals :: "'t \<Rightarrow> (string \<rightharpoonup> StageState)"
  collectUnmatchedMovFiles :: "File list \<Rightarrow> File list \<times> bool"
  getErrorMessage :: "ThrownError \<Rightarrow> string \<Rightarrow> string"
  Date_parse :: "string \<Rightarrow> int option"

text \<open>
  Modelled from the spec: \<^verbatim>\<open>createFileEntries\<close> of \<^verbatim>\<open>./utils\<close>, which is not among
  the sources. One entry per file in input order, the index being the position, name and
  size taken from the file, status pending, progress 0, and uploadedBytes (progress
  times size) 0.
\<close>

definition createFileEntries :: "File list \<Rightarrow> FileProgressEntry list" where
  "createFileEntries fs =
     map (\<lambda>(i, f). \<lparr>entry_index = i, entry_name = file_name f, entry_size = file_size f,
                     entry_status = St_pending, entry_progress = 0, entry_uploadedBytes = 0\<rparr>)
         (enumerate 0 fs)"

text \<open>
  Modelled from the spec: \<^verbatim>\<open>calculateTotalSize\<close> of \<^verbatim>\<open>./utils\<close>, the sum of the file sizes.
\<close>

definition calculateTotalSize :: "File list \<Rightarrow> int" where
  "calculateTotalSize fs = sum_list (map file_size fs)"

text \<open>
  Modelled from the spec: \<^verbatim>\<open>calculateUploadedBytes\<close> of \<^verbatim>\<open>./utils\<close>, the sum of
  uploadedBytes over all entries.
\<close>

definition calculateUploadedBytes :: "FileProgressEntry list \<Rightarrow> int" where
  "calculateUploadedBytes entries = sum_list (map entry_uploadedBytes entries)"

definition computeUploadedBytes :: "FileProgressEntry list \<Rightarrow> int" where
  "computeUploadedBytes entries = calculateUploadedBytes entries"

definition MAX_PROCESSING_LOGS :: nat where
  "MAX_PROCESSING_LOGS = 200"

text \<open>\<^verbatim>\<open>xs.slice(-n)\<close> for a positive \<open>n\<close>: the last \<open>n\<close> elements, all of them when there are fewer.\<close>

definition slice_last :: "nat \<Rightarrow> 'a list \<Rightarrow> 'a list" where
  "slice_last n xs = drop (length xs - n) xs"

text \<open>The decimal digits of a number, as the template string \<^verbatim>\<open>`log-${n}`\<close> prints them.\<close>

fun string_of_nat :: "nat \<Rightarrow> string" where
  "string_of_nat n =
     (if n < 10 then [char_of (48 + n)]
      else string_of_nat (n div 10) @ [char_of (48 + n mod 10)])"

declare string_of_nat.simps [simp del]

text \<open>The message \<^verbatim>\<open>abortCurrent\<close> records when it stops the processing (UTF-8).\<close>

definition PROCESSING_TERMINATED :: string where
  "PROCESSING_TERMINATED =
     [CHR 0xE6, CHR 0x9C, CHR 0x8D, CHR 0xE5, CHR 0x8A, CHR 0xA1, CHR 0xE5, CHR 0x99,
      CHR 0xA8, CHR 0xE5, CHR 0xA4, CHR 0x84, CHR 0xE7, CHR 0x90, CHR 0x86, CHR 0xE5,
      CHR 0xB7, CHR 0xB2, CHR 0xE7, CHR 0xBB, CHR 0x88, CHR 0xE6, CHR 0xAD, CHR 0xA2]"

text \<open>The fallback message of a failed upload (UTF-8).\<close>

definition UPLOAD_FAILED :: string where
  "UPLOAD_FAILED =
     [CHR 0xE4, CHR 0xB8, CHR 0x8A, CHR 0xE4, CHR 0xBC, CHR 0xA0, CHR 0xE5, CHR 0xA4,
      CHR 0xB1, CHR 0xE8, CHR 0xB4, CHR 0xA5, CHR 0xEF, CHR 0xBC, CHR 0x8C, CHR 0xE8,
      CHR 0xAF, CHR 0xB7, CHR 0xE7, CHR 0xA8, CHR 0x8D, CHR 0xE5, CHR 0x90, CHR 0x8E,
      CHR 0xE5, CHR 0x86, CHR 0x8D, CHR 0xE8, CHR 0xAF, CHR 0x95, CHR 0xE3, CHR 0x80,
      CHR 0x82]"

section \<open>The store's operations\<close>

text \<open>\<^verbatim>\<open>set(partial)\<close>: the state is replaced by itself with the fields of the partial overwritten.\<close>

definition set_state ::
  "(('s, 't) PhotoUploadStoreState \<Rightarrow> ('s, 't) PhotoUploadStoreState) \<Rightarrow>
   ('s, 't) PhotoUploadStore \<Rightarrow> ('s, 't) PhotoUploadStore" where
  "set_state partial \<sigma> = \<sigma>\<lparr>state := partial (state \<sigma>)\<rparr>"

definition updateEntries ::
  "(FileProgressEntry list \<Rightarrow> FileProgressEntry list) \<Rightarrow>
   ('s, 't) PhotoUploadStore \<Rightarrow> ('s, 't) PhotoUploadStore" where
  "updateEntries updater \<sigma> =
     set_state (\<lambda>s. let nextEntries = updater (uploadEntries s)
                     in s\<lparr>uploadEntries := nextEntries,
                          uploadedBytes := computeUploadedBytes nextEntries\<rparr>) \<sigma>"

text \<open>\<^verbatim>\<open>uploadAbortController?.abort(); uploadAbortController = null\<close>\<close>

definition abort_and_clear :: "('s, 't) PhotoUploadStore \<Rightarrow> ('s, 't) PhotoUploadStore" where
  "abort_and_clear \<sigma> =
     (case uploadAbortController \<sigma> of
        None \<Rightarrow> \<sigma>\<lparr>uploadAbortController := None\<rparr>
      | Some c \<Rightarrow> \<sigma>\<lparr>controllers := (controllers \<sigma>)[c := True], uploadAbortController := None\<rparr>)"

definition mkLogEntry :: "'t Externals \<Rightarrow> int \<Rightarrow> nat \<Rightarrow> string \<Rightarrow> string \<Rightarrow> string \<Rightarrow> ProcessingLogEntry" where
  "mkLogEntry X now seq message level timestamp =
     \<lparr>log_id = ''log-'' @ string_of_nat seq,
      log_message = message,
      log_level = level,
      log_timestamp = (case Date_parse X timestamp of None \<Rightarrow> now | Some t \<Rightarrow> t)\<rparr>"

text \<open>
  The reducer of the server events. \<open>now\<close> is what \<^verbatim>\<open>Date.now()\<close> returns when the
  event arrives. In the error and complete cases the source calls \<^verbatim>\<open>updateEntries\<close>
  inside the updater of \<^verbatim>\<open>set\<close>; zustand merges the updater's result into the state
  that this inner call has left, so the entries are updated first.
\<close>

fun handleProcessingEvent ::
  "'t Externals \<Rightarrow> int \<Rightarrow> ('s, 't) PhotoSyncProgressEvent \<Rightarrow>
   ('s, 't) PhotoUploadStore \<Rightarrow> ('s, 't) PhotoUploadStore" where
  "handleProcessingEvent X now (Ev_start summary' totals' eventOptions) \<sigma> =
     set_state (\<lambda>s. s\<lparr>phase := Ph_processing,
                      processingError := None,
                      processingState := Some
                        \<lparr>dryRun = (case eventOptions of None \<Rightarrow> False
                                   | Some opts \<Rightarrow> (case opt_dryRun opts of None \<Rightarrow> False | Some b \<Rightarrow> b)),
                         summary = summary',
                         totals = totals',
                         stages = createStageStateFromTotals X totals',
                         completed = False,
                         error_message = None,
                         latestLog = None\<rparr>,
                      processingLogs := []\<rparr>)
       (updateEntries
          (map (\<lambda>entry. entry\<lparr>entry_status :=
                  (if entry_status entry = St_uploading then St_processing else entry_status entry)\<rparr>))
          \<sigma>)"
| "handleProcessingEvent X now (Ev_log message level timestamp) \<sigma> =
     (let logEntry = mkLogEntry X now (processingLogSequence \<sigma>) message level timestamp
      in set_state (\<lambda>s. s\<lparr>processingState :=
                             (case processingState s of
                                Some ps \<Rightarrow> Some (ps\<lparr>latestLog := Some
                                   \<lparr>latest_message = log_message logEntry,
                                    latest_level = log_level logEntry,
                                    latest_timestamp = log_timestamp logEntry\<rparr>\<rparr>)
                              | None \<Rightarrow> None),
                           processingLogs :=
                             slice_last MAX_PROCESSING_LOGS (processingLogs s @ [logEntry])\<rparr>)
           (\<sigma>\<lparr>processingLogSequence := processingLogSequence \<sigma> + 1\<rparr>))"
| "handleProcessingEvent X now event \<sigma> =
     (case processingState (state \<sigma>) of
        None \<Rightarrow>
          (case event of
             Ev_error message \<Rightarrow>
               set_state (\<lambda>s. s\<lparr>phase := Ph_error, processingError := Some message\<rparr>) \<sigma>
           | _ \<Rightarrow> \<sigma>)
      | Some prev \<Rightarrow>
          (case event of
             Ev_stage stage status' processed total' summary' \<Rightarrow>
               (let prevStage = stages prev stage;
                    normalizedTotal = normalizeStageCount X total'
                      (case prevStage of None \<Rightarrow> 0 | Some st \<Rightarrow> stage_total st);
                    normalizedProcessed = normalizeStageCount X processed
                      (case prevStage of None \<Rightarrow> 0 | Some st \<Rightarrow> stage_processed st)
                in set_state (\<lambda>s. s\<lparr>processingState := Some (prev
                     \<lparr>summary := summary',
                      stages := (stages prev)(stage \<mapsto>
                        \<lparr>stage_status = (if status' = ''complete'' \<or> normalizedTotal = 0
                                          then ''completed'' else ''running''),
                         stage_processed = min normalizedProcessed normalizedTotal,
                         stage_total = normalizedTotal\<rparr>)\<rparr>)\<rparr>) \<sigma>)
           | Ev_action stage index' total' summary' \<Rightarrow>
               (let prevStage = stages prev stage;
                    normalizedTotal = normalizeStageCount X total'
                      (case prevStage of None \<Rightarrow> 0 | Some st \<Rightarrow> stage_total st);
                    normalizedProcessed = normalizeStageCount X index'
                      (case prevStage of None \<Rightarrow> 0 | Some st \<Rightarrow> stage_processed st)
                in set_state (\<lambda>s. s\<lparr>processingState := Some (prev
                     \<lparr>summary := summary',
                      stages := (stages prev)(stage \<mapsto>
                        \<lparr>stage_status = (if normalizedTotal = 0 then ''completed'' else ''running''),
                         stage_processed = min normalizedProcessed normalizedTotal,
                         stage_total = normalizedTotal\<rparr>)\<rparr>)\<rparr>) \<sigma>)
           | Ev_error message \<Rightarrow>
               set_state (\<lambda>s. s\<lparr>phase := Ph_error,
                                processingError := Some message,
                                processingState := Some (prev\<lparr>error_message := Some message\<rparr>)\<rparr>)
                 (updateEntries
                    (map (\<lambda>entry. entry\<lparr>entry_status :=
                            (if entry_status entry = St_processing then St_error else entry_status entry)\<rparr>))
                    \<sigma>)
           | Ev_complete summary' \<Rightarrow>
               set_state (\<lambda>s. s\<lparr>phase := Ph_completed,
                                processingState := Some (prev\<lparr>summary := summary', completed := True\<rparr>)\<rparr>)
                 (updateEntries
                    (map (\<lambda>entry. entry\<lparr>entry_status :=
                                           (if entry_status entry = St_processing then St_done else entry_status entry),
                                         entry_progress := 1,
                                         entry_uploadedBytes := entry_size entry\<rparr>))
                    \<sigma>)
           | _ \<Rightarrow> \<sigma>))"

text \<open>
  The progress callback. \<^verbatim>\<open>new Map(pairs)\<close> keeps, for an index that occurs twice, the
  last pair; \<open>map_of\<close> returns the first, hence the reversal.
\<close>

definition progressMap :: "PhotoUploadProgressSnapshot \<Rightarrow> (nat \<rightharpoonup> FileProgress)" where
  "progressMap snapshot = map_of (rev (map (\<lambda>file. (snap_index file, file)) (snapshot_files snapshot)))"

definition progressEntry :: "PhotoUploadProgressSnapshot \<Rightarrow> FileProgressEntry \<Rightarrow> FileProgressEntry" where
  "progressEntry snapshot entry =
     (case progressMap snapshot (entry_index entry) of
        None \<Rightarrow> entry
      | Some current \<Rightarrow>
          entry\<lparr>entry_status := (if entry_status entry = St_pending then St_uploading else entry_status entry),
                entry_progress := snap_progress current,
                entry_uploadedBytes := snap_uploadedBytes current\<rparr>)"

definition handleUploadProgress ::
  "PhotoUploadProgressSnapshot \<Rightarrow> ('s, 't) PhotoUploadStore \<Rightarrow> ('s, 't) PhotoUploadStore" where
  "handleUploadProgress snapshot \<sigma> = updateEntries (map (progressEntry snapshot)) \<sigma>"

text \<open>
  The store as \<^verbatim>\<open>createPhotoUploadStore\<close> builds it. \<open>seq\<close> is the value the module-level
  counter has at that moment: 0 for the first store of the module, and whatever earlier
  stores have left for a later one.
\<close>

definition createPhotoUploadStore ::
  "'t Externals \<Rightarrow> nat \<Rightarrow> File list \<Rightarrow> string list \<Rightarrow> ('s, 't) PhotoUploadStore" where
  "createPhotoUploadStore X seq initialFiles tags =
     \<lparr>state =
        \<lparr>files = initialFiles,
         totalSize = calculateTotalSize initialFiles,
         uploadedBytes = 0,
         availableTags = tags,
         selectedTags = [],
         unmatchedMovFiles = fst (collectUnmatchedMovFiles X initialFiles),
         hasMovFile = snd (collectUnmatchedMovFiles X initialFiles),
         phase = Ph_review,
         uploadEntries = createFileEntries initialFiles,
         uploadError = None,
         processingError = None,
         processingState = None,
         processingLogs = []\<rparr>,
      uploadAbortController = None,
      controllers = [],
      processingLogSequence = seq\<rparr>"

definition removeEntry ::
  "'t Externals \<Rightarrow> FileProgressEntry \<Rightarrow> ('s, 't) PhotoUploadStore \<Rightarrow> ('s, 't) PhotoUploadStore" where
  "removeEntry X entry \<sigma> =
     set_state (\<lambda>s.
        if phase s \<noteq> Ph_review then s
        else let nextFiles = map snd (filter (\<lambda>(index, _). index \<noteq> entry_index entry) (enumerate 0 (files s)))
             in if length nextFiles = length (files s) then s
                else let nextEntries = createFileEntries nextFiles
                     in s\<lparr>files := nextFiles,
                          totalSize := calculateTotalSize nextFiles,
                          unmatchedMovFiles := fst (collectUnmatchedMovFiles X nextFiles),
                          hasMovFile := snd (collectUnmatchedMovFiles X nextFiles),
                          uploadEntries := nextEntries,
                          uploadedBytes := computeUploadedBytes nextEntries\<rparr>) \<sigma>"

text \<open>
  \<^verbatim>\<open>beginUpload\<close> up to the point where it awaits the transport. The second component
  tells whether \<^verbatim>\<open>onUpload\<close> was called; the function resumes in \<open>uploadSettled\<close> when
  the promise of the transport settles.
\<close>

definition beginUpload :: "('s, 't) PhotoUploadStore \<Rightarrow> ('s, 't) PhotoUploadStore \<times> bool" where
  "beginUpload \<sigma> =
     (let s = state \<sigma>
      in if length (unmatchedMovFiles s) > 0 \<or> phase s = Ph_uploading \<or> phase s = Ph_processing
         then (\<sigma>, False)
         else if length (files s) = 0 then (\<sigma>, False)
         else
           let \<sigma>1 = set_state (\<lambda>s. s\<lparr>uploadError := None,
                                       processingError := None,
                                       processingState := None,
                                       phase := Ph_uploading,
                                       processingLogs := []\<rparr>) \<sigma>;
               \<sigma>2 = updateEntries (map (\<lambda>entry. entry\<lparr>entry_status := St_uploading\<rparr>)) \<sigma>1
           in (\<sigma>2\<lparr>uploadAbortController := Some (length (controllers \<sigma>2)),
                  controllers := controllers \<sigma>2 @ [False]\<rparr>, True))"

definition uploadSettled ::
  "'t Externals \<Rightarrow> UploadOutcome \<Rightarrow> ('s, 't) PhotoUploadStore \<Rightarrow> ('s, 't) PhotoUploadStore" where
  "uploadSettled X outcome \<sigma> =
     (let \<sigma>' =
        (case outcome of
           Resolved \<Rightarrow> \<sigma>
         | Rejected err \<Rightarrow>
             if thrown_name err = Some ''AbortError''
             then let \<sigma>1 = set_state (\<lambda>s. s\<lparr>phase := Ph_review\<rparr>) \<sigma>
                  in updateEntries (\<lambda>_. createFileEntries (files (state \<sigma>1))) \<sigma>1
             else updateEntries
                    (map (\<lambda>entry. entry\<lparr>entry_status :=
                            (if entry_status entry = St_uploading then St_error else entry_status entry)\<rparr>))
                    (set_state (\<lambda>s. s\<lparr>uploadError := Some (getErrorMessage X err UPLOAD_FAILED),
                                       phase := Ph_error\<rparr>) \<sigma>))
      in \<sigma>'\<lparr>uploadAbortController := None\<rparr>)"

definition abortCurrent :: "('s, 't) PhotoUploadStore \<Rightarrow> ('s, 't) PhotoUploadStore" where
  "abortCurrent \<sigma> =
     (if phase (state \<sigma>) = Ph_uploading then
        (let \<sigma>1 = set_state (\<lambda>s. s\<lparr>phase := Ph_review\<rparr>) (abort_and_clear \<sigma>)
         in updateEntries (\<lambda>_. createFileEntries (files (state \<sigma>1))) \<sigma>1)
      else if phase (state \<sigma>) = Ph_processing then
        updateEntries
          (map (\<lambda>entry. entry\<lparr>entry_status :=
                  (if entry_status entry = St_processing then St_error else entry_status entry)\<rparr>))
          (set_state (\<lambda>s. s\<lparr>processingError := Some PROCESSING_TERMINATED, phase := Ph_error\<rparr>)
             (abort_and_clear \<sigma>))
      else \<sigma>)"

definition reset :: "('s, 't) PhotoUploadStore \<Rightarrow> ('s, 't) PhotoUploadStore" where
  "reset \<sigma> =
     (let \<sigma>1 = set_state (\<lambda>s. s\<lparr>phase := Ph_review,
                                 uploadError := None,
                                 processingError := None,
                                 processingState := None,
                                 processingLogs := []\<rparr>) (abort_and_clear \<sigma>)
      in updateEntries (\<lambda>_. createFileEntries (files (state \<sigma>1))) \<sigma>1)"

definition cleanup :: "('s, 't) PhotoUploadStore \<Rightarrow> ('s, 't) PhotoUploadStore" where
  "cleanup \<sigma> = abort_and_clear \<sigma>"

text \<open>\<^verbatim>\<open>closeModal\<close> runs \<^verbatim>\<open>cleanup\<close> and then the caller's \<^verbatim>\<open>onClose\<close>, which is outside the store.\<close>

definition closeModal :: "('s, 't) PhotoUploadStore \<Rightarrow> ('s, 't) PhotoUploadStore" where
  "closeModal \<sigma> = cleanup \<sigma>"

definition setSelectedTags :: "string list \<Rightarrow> ('s, 't) PhotoUploadStore \<Rightarrow> ('s, 't) PhotoUploadStore" where
  "setSelectedTags tags \<sigma> = set_state (\<lambda>s. s\<lparr>selectedTags := tags\<rparr>) \<sigma>"

section \<open>Runs of the store\<close>

text \<open>
  Everything that can happen to a store: the operations it exposes, the two callbacks
  the transport calls, and the settling of the upload promise. The clock reading
  comes with each server event. \<open>Do_otherStoreLog\<close> is a log event that another store of
  the module handles: it advances the shared counter and touches nothing else of this
  store.
\<close>

datatype ('s, 't) Action =
    Do_removeEntry FileProgressEntry
  | Do_beginUpload
  | Do_uploadSettled UploadOutcome
  | Do_abortCurrent
  | Do_reset
  | Do_closeModal
  | Do_setSelectedTags "string list"
  | Do_cleanup
  | Do_uploadProgress PhotoUploadProgressSnapshot
  | Do_serverEvent int "('s, 't) PhotoSyncProgressEvent"
  | Do_otherStoreLog

fun step ::
  "'t Externals \<Rightarrow> ('s, 't) Action \<Rightarrow> ('s, 't) PhotoUploadStore \<Rightarrow> ('s, 't) PhotoUploadStore" where
  "step X (Do_removeEntry entry) \<sigma> = removeEntry X entry \<sigma>"
| "step X Do_beginUpload \<sigma> = fst (beginUpload \<sigma>)"
| "step X (Do_uploadSettled outcome) \<sigma> = uploadSettled X outcome \<sigma>"
| "step X Do_abortCurrent \<sigma> = abortCurrent \<sigma>"
| "step X Do_reset \<sigma> = reset \<sigma>"
| "step X Do_closeModal \<sigma> = closeModal \<sigma>"
| "step X (Do_setSelectedTags tags) \<sigma> = setSelectedTags tags \<sigma>"
| "step X Do_cleanup \<sigma> = cleanup \<sigma>"
| "step X (Do_uploadProgress snapshot) \<sigma> = handleUploadProgress snapshot \<sigma>"
| "step X (Do_serverEvent now event) \<sigma> = handleProcessingEvent X now event \<sigma>"
| "step X Do_otherStoreLog \<sigma> = \<sigma>\<lparr>processingLogSequence := processingLogSequence \<sigma> + 1\<rparr>"

fun run ::
  "'t Externals \<Rightarrow> ('s, 't) Action list \<Rightarrow> ('s, 't) PhotoUploadStore \<Rightarrow> ('s, 't) PhotoUploadStore" where
  "run X [] \<sigma> = \<sigma>"
| "run X (a # as) \<sigma> = run X as (step X a \<sigma>)"

text \<open>
  The log events of a run as they were received, in order of arrival: the value of the
  sequence counter when the event arrived, the clock reading, and the payload (message,
  level, timestamp).
\<close>

fun receivedLogs ::
  "nat \<Rightarrow> ('s, 't) Action list \<Rightarrow> (nat \<times> int \<times> string \<times> string \<times> string) list" where
  "receivedLogs seq [] = []"
| "receivedLogs seq (Do_serverEvent now (Ev_log message level timestamp) # rest) =
     (seq, now, message, level, timestamp) # receivedLogs (Suc seq) rest"
| "receivedLogs seq (Do_otherStoreLog # rest) = receivedLogs (Suc seq) rest"
| "receivedLogs seq (a # rest) = receivedLogs seq rest"

text \<open>
  The actions after which the logs collected so far are still there: all but \<^verbatim>\<open>reset\<close>,
  \<^verbatim>\<open>beginUpload\<close> and a start event, which begin a new log.
\<close>

fun keepsLogs :: "('s, 't) Action \<Rightarrow> bool" where
  "keepsLogs Do_reset = False"
| "keepsLogs Do_beginUpload = False"
| "keepsLogs (Do_serverEvent now (Ev_start summary' totals' eventOptions)) = False"
| "keepsLogs a = True"

text \<open>
  The position of a status on the path pending, uploading, processing, then done or
  error; a status is demoted when its position decreases.
\<close>

fun status_rank :: "EntryStatus \<Rightarrow> nat" where
  "status_rank St_pending = 0"
| "status_rank St_uploading = 1"
| "status_rank St_processing = 2"
| "status_rank St_done = 3"
| "status_rank St_error = 3"

text \<open>
  Two invariants of a run: the aggregate byte count is the one computed from the entries,
  and the unmatched companion files are those of the current file list.
\<close>

definition bytes_consistent :: "('s, 't) PhotoUploadStore \<Rightarrow> bool" where
  "bytes_consistent \<sigma> \<longleftrightarrow>
     uploadedBytes (state \<sigma>) = calculateUploadedBytes (uploadEntries (state \<sigma>))"

definition companions_consistent :: "'t Externals \<Rightarrow> ('s, 't) PhotoUploadStore \<Rightarrow> bool" where
  "companions_consistent X \<sigma> \<longleftrightarrow>
     unmatchedMovFiles (state \<sigma>) = fst (collectUnmatchedMovFiles X (files (state \<sigma>)))"

subsection \<open>Concrete stores\<close>

text \<open>
  Modelled from the spec: \<^verbatim>\<open>normalizeStageCount\<close> of \<^verbatim>\<open>./utils\<close>. A reported count that
  is a non-negative integer is accepted, and the result is the larger of it and the
  previous count; any other report keeps the previous count.
\<close>

definition spec_normalizeStageCount :: "int option \<Rightarrow> int \<Rightarrow> int" where
  "spec_normalizeStageCount reported previous =
     (case reported of
        None \<Rightarrow> previous
      | Some n \<Rightarrow> if 0 \<le> n then max n previous else previous)"

text \<open>The file name after its last dot, and before it.\<close>

definition extension :: "string \<Rightarrow> string" where
  "extension nm = (if CHR ''.'' \<in> set nm then rev (takeWhile (\<lambda>c. c \<noteq> CHR ''.'') (rev nm)) else [])"

definition base_name :: "string \<Rightarrow> string" where
  "base_name nm = (if CHR ''.'' \<in> set nm then rev (tl (dropWhile (\<lambda>c. c \<noteq> CHR ''.'') (rev nm))) else nm)"

text \<open>
  Modelled from the spec: the unmatched files that \<^verbatim>\<open>collectUnmatchedMovFiles\<close> of
  \<^verbatim>\<open>./utils\<close>, which is not among the sources, returns first. They are the files of the
  selection with the reserved companion-video extension for which the selection has no
  image of the same base name, in the order of the selection. The spec names neither the
  extension nor the files that count as images: \<open>isVideo\<close> and \<open>isImage\<close> are parameters.
\<close>

definition unmatchedCompanions :: "(File \<Rightarrow> bool) \<Rightarrow> (File \<Rightarrow> bool) \<Rightarrow> File list \<Rightarrow> File list" where
  "unmatchedCompanions isVideo isImage fs =
     filter (\<lambda>f. isVideo f \<and>
                  \<not> list_ex (\<lambda>g. isImage g \<and> base_name (file_name g) = base_name (file_name f)) fs) fs"

definition isMov :: "File \<Rightarrow> bool" where
  "isMov f \<longleftrightarrow> extension (file_name f) = ''mov''"

text \<open>
  An instance of the helpers, for running the model: the totals of a run are pairs of
  a stage name and its total, every stage starts with nothing processed, the companion
  videos are the files with the extension \<^verbatim>\<open>mov\<close> and every other file counts as an
  image, the flag tells whether the selection has a companion video, failures report
  their text, and the only timestamp that parses is \<^verbatim>\<open>1970-01-01T00:00:01Z\<close>.
\<close>

definition example_externals :: "((string \<times> int) list) Externals" where
  "example_externals =
     \<lparr>normalizeStageCount = spec_normalizeStageCount,
      createStageStateFromTotals =
        (\<lambda>ts. map_of (map (\<lambda>(k, n). (k, \<lparr>stage_status = ''pending'', stage_processed = 0, stage_total = n\<rparr>)) ts)),
      collectUnmatchedMovFiles =
        (\<lambda>fs. (unmatchedCompanions isMov (\<lambda>g. \<not> isMov g) fs, list_ex isMov fs)),
      getErrorMessage = (\<lambda>err fallback. case thrown_text err of None \<Rightarrow> fallback | Some m \<Rightarrow> m),
      Date_parse = (\<lambda>t. if t = ''1970-01-01T00:00:01Z'' then Some 1000 else None)\<rparr>"

definition example_files :: "File list" where
  "example_files = [\<lparr>file_name = ''a.jpg'', file_size = 10\<rparr>, \<lparr>file_name = ''b.jpg'', file_size = 20\<rparr>]"

definition example_review :: "(string, (string \<times> int) list) PhotoUploadStore" where
  "example_review = createPhotoUploadStore example_externals 0 example_files []"

definition example_uploading :: "(string, (string \<times> int) list) PhotoUploadStore" where
  "example_uploading = fst (beginUpload example_review)"

definition example_processing :: "(string, (string \<times> int) list) PhotoUploadStore" where
  "example_processing =
     handleProcessingEvent example_externals 5 (Ev_start ''started'' [(''metadata'', 2)] None) example_uploading"

definition example_completed :: "(string, (string \<times> int) list) PhotoUploadStore" where
  "example_completed =
     handleProcessingEvent example_externals 9 (Ev_complete ''finished'') example_processing"

definition example_failed :: "(string, (string \<times> int) list) PhotoUploadStore" where
  "example_failed =
     uploadSettled example_externals
       (Rejected \<lparr>thrown_name = Some ''Error'', thrown_text = Some ''network''\<rparr>) example_uploading"

text \<open>The processing of the two files, stopped by the user.\<close>

definition example_aborted :: "(string, (string \<times> int) list) PhotoUploadStore" where
  "example_aborted = abortCurrent example_processing"

text \<open>A selection with a companion video and no image of its name.\<close>

definition example_unmatched :: "(string, (string \<times> int) list) PhotoUploadStore" where
  "example_unmatched =
     createPhotoUploadStore example_externals 0
       [\<lparr>file_name = ''a.jpg'', file_size = 10\<rparr>, \<lparr>file_name = ''clip.mov'', file_size = 30\<rparr>] []"

text \<open>
  What reaches a store after its start event, interleaved: a log event, a stage event, a
  progress snapshot, a log event of another store, and a second log event.
\<close>

definition example_stream :: "(string, (string \<times> int) list) Action list" where
  "example_stream =
     [Do_serverEvent 6 (Ev_log ''scanning'' ''info'' ''soon''),
      Do_serverEvent 7 (Ev_stage ''metadata'' ''running'' (Some 1) (Some 2) ''reading''),
      Do_uploadProgress \<lparr>snapshot_files = [\<lparr>snap_index = 0, snap_progress = 1, snap_uploadedBytes = 10\<rparr>]\<rparr>,
      Do_otherStoreLog,
      Do_serverEvent 8 (Ev_log ''written'' ''warn'' ''1970-01-01T00:00:01Z'')]"

section \<open>Basic facts\<close>

lemma set_state_fields [simp]:
  "state (set_state f \<sigma>) = f (state \<sigma>)"
  "uploadAbortController (set_state f \<sigma>) = uploadAbortController \<sigma>"
  "controllers (set_state f \<sigma>) = controllers \<sigma>"
  "processingLogSequence (set_state f \<sigma>) = processingLogSequence \<sigma>"
  by (simp_all add: set_state_def)

lemma updateEntries_state [simp]:
  "state (updateEntries u \<sigma>) =
     (state \<sigma>)\<lparr>uploadEntries := u (uploadEntries (state \<sigma>)),
                 uploadedBytes := computeUploadedBytes (u (uploadEntries (state \<sigma>)))\<rparr>"
  by (simp add: updateEntries_def Let_def)

lemma updateEntries_closure [simp]:
  "uploadAbortController (updateEntries u \<sigma>) = uploadAbortController \<sigma>"
  "controllers (updateEntries u \<sigma>) = controllers \<sigma>"
  "processingLogSequence (updateEntries u \<sigma>) = processingLogSequence \<sigma>"
  by (simp_all add: updateEntries_def)

lemma abort_and_clear_fields [simp]:
  "state (abort_and_clear \<sigma>) = state \<sigma>"
  "uploadAbortController (abort_and_clear \<sigma>) = None"
  "processingLogSequence (abort_and_clear \<sigma>) = processingLogSequence \<sigma>"
  by (simp_all add: abort_and_clear_def split: option.splits)

subsection \<open>The concrete stores, evaluated\<close>

lemma example_review_state:
  "state example_review =
     \<lparr>files = example_files, totalSize = 30, uploadedBytes = 0, availableTags = [],
      selectedTags = [], unmatchedMovFiles = [], hasMovFile = False, phase = Ph_review,
      uploadEntries =
        [\<lparr>entry_index = 0, entry_name = ''a.jpg'', entry_size = 10, entry_status = St_pending,
          entry_progress = 0, entry_uploadedBytes = 0\<rparr>,
         \<lparr>entry_index = 1, entry_name = ''b.jpg'', entry_size = 20, entry_status = St_pending,
          entry_progress = 0, entry_uploadedBytes = 0\<rparr>],
      uploadError = None, processingError = None, processingState = None, processingLogs = []\<rparr>"
  by (simp add: example_review_def createPhotoUploadStore_def example_files_def
      calculateTotalSize_def createFileEntries_def example_externals_def
      unmatchedCompanions_def isMov_def extension_def base_name_def)

lemma example_uploading_state:
  "state example_uploading =
     \<lparr>files = example_files, totalSize = 30, uploadedBytes = 0, availableTags = [],
      selectedTags = [], unmatchedMovFiles = [], hasMovFile = False, phase = Ph_uploading,
      uploadEntries =
        [\<lparr>entry_index = 0, entry_name = ''a.jpg'', entry_size = 10, entry_status = St_uploading,
          entry_progress = 0, entry_uploadedBytes = 0\<rparr>,
         \<lparr>entry_index = 1, entry_name = ''b.jpg'', entry_size = 20, entry_status = St_uploading,
          entry_progress = 0, entry_uploadedBytes = 0\<rparr>],
      uploadError = None, processingError = None, processingState = None, processingLogs = []\<rparr>"
  by (simp add: example_uploading_def beginUpload_def Let_def example_review_state
      example_files_def computeUploadedBytes_def calculateUploadedBytes_def)

lemma example_processing_state:
  "state example_processing =
     \<lparr>files = example_files, totalSize = 30, uploadedBytes = 0, availableTags = [],
      selectedTags = [], unmatchedMovFiles = [], hasMovFile = False, phase = Ph_processing,
      uploadEntries =
        [\<lparr>entry_index = 0, entry_name = ''a.jpg'', entry_size = 10, entry_status = St_processing,
          entry_progress = 0, entry_uploadedBytes = 0\<rparr>,
         \<lparr>entry_index = 1, entry_name = ''b.jpg'', entry_size = 20, entry_status = St_processing,
          entry_progress = 0, entry_uploadedBytes = 0\<rparr>],
      uploadError = None, processingError = None,
      processingState = Some
        \<lparr>dryRun = False, summary = ''started'', totals = [(''metadata'', 2)],
         stages = createStageStateFromTotals example_externals [(''metadata'', 2)],
         completed = False, error_message = None, latestLog = None\<rparr>,
      processingLogs = []\<rparr>"
  by (simp add: example_processing_def example_uploading_state
      computeUploadedBytes_def calculateUploadedBytes_def)

lemma example_completed_state:
  "state example_completed =
     \<lparr>files = example_files, totalSize = 30, uploadedBytes = 30, availableTags = [],
      selectedTags = [], unmatchedMovFiles = [], hasMovFile = False, phase = Ph_completed,
      uploadEntries =
        [\<lparr>entry_index = 0, entry_name = ''a.jpg'', entry_size = 10, entry_status = St_done,
          entry_progress = 1, entry_uploadedBytes = 10\<rparr>,
         \<lparr>entry_index = 1, entry_name = ''b.jpg'', entry_size = 20, entry_status = St_done,
          entry_progress = 1, entry_uploadedBytes = 20\<rparr>],
      uploadError = None, processingError = None,
      processingState = Some
        \<lparr>dryRun = False, summary = ''finished'', totals = [(''metadata'', 2)],
         stages = createStageStateFromTotals example_externals [(''metadata'', 2)],
         completed = True, error_message = None, latestLog = None\<rparr>,
      processingLogs = []\<rparr>"
  by (simp add: example_completed_def example_processing_state
      computeUploadedBytes_def calculateUploadedBytes_def)

lemma example_failed_state:
  "state example_failed =
     \<lparr>files = example_files, totalSize = 30, uploadedBytes = 0, availableTags = [],
      selectedTags = [], unmatchedMovFiles = [], hasMovFile = False, phase = Ph_error,
      uploadEntries =
        [\<lparr>entry_index = 0, entry_name = ''a.jpg'', entry_size = 10, entry_status = St_error,
          entry_progress = 0, entry_uploadedBytes = 0\<rparr>,
         \<lparr>entry_index = 1, entry_name = ''b.jpg'', entry_size = 20, entry_status = St_error,
          entry_progress = 0, entry_uploadedBytes = 0\<rparr>],
      uploadError = Some ''network'', processingError = None, processingState = None,
      processingLogs = []\<rparr>"
  by (simp add: example_failed_def uploadSettled_def example_uploading_state
      computeUploadedBytes_def calculateUploadedBytes_def example_externals_def)

lemma example_aborted_state:
  "state example_aborted =
     \<lparr>files = example_files, totalSize = 30, uploadedBytes = 0, availableTags = [],
      selectedTags = [], unmatchedMovFiles = [], hasMovFile = False, phase = Ph_error,
      uploadEntries =
        [\<lparr>entry_index = 0, entry_name = ''a.jpg'', entry_size = 10, entry_status = St_error,
          entry_progress = 0, entry_uploadedBytes = 0\<rparr>,
         \<lparr>entry_index = 1, entry_name = ''b.jpg'', entry_size = 20, entry_status = St_error,
          entry_progress = 0, entry_uploadedBytes = 0\<rparr>],
      uploadError = None, processingError = Some PROCESSING_TERMINATED,
      processingState = Some
        \<lparr>dryRun = False, summary = ''started'', totals = [(''metadata'', 2)],
         stages = createStageStateFromTotals example_externals [(''metadata'', 2)],
         completed = False, error_message = None, latestLog = None\<rparr>,
      processingLogs = []\<rparr>"
  by (simp add: example_aborted_def abortCurrent_def example_processing_state
      computeUploadedBytes_def calculateUploadedBytes_def)

lemma example_review_closure:
  "uploadAbortController example_review = None"
  "controllers example_review = []"
  "processingLogSequence example_review = 0"
  by (simp_all add: example_review_def createPhotoUploadStore_def)

lemma string_of_nat_0: "string_of_nat 0 = ''0''"
  by code_simp

subsection \<open>Invariants of a run\<close>

lemma slice_last_append: "slice_last n (slice_last n xs @ ys) = slice_last n (xs @ ys)"
  by (cases "length xs \<le> n") (auto simp: slice_last_def add.commute)

lemma length_slice_last: "length (slice_last n xs) \<le> n"
  by (simp add: slice_last_def)

lemma slice_last_short: "length xs \<le> n \<Longrightarrow> slice_last n xs = xs"
  by (simp add: slice_last_def)

lemma calculateUploadedBytes_createFileEntries: "calculateUploadedBytes (createFileEntries fs) = 0"
  by (simp add: calculateUploadedBytes_def createFileEntries_def comp_def case_prod_beta)

lemma handleProcessingEvent_bytes:
  "bytes_consistent \<sigma> \<Longrightarrow> bytes_consistent (handleProcessingEvent X now event \<sigma>)"
  by (cases event)
     (auto simp: bytes_consistent_def computeUploadedBytes_def Let_def split: option.splits)

lemma step_bytes: "bytes_consistent \<sigma> \<Longrightarrow> bytes_consistent (step X a \<sigma>)"
proof (cases a)
  case (Do_serverEvent now event)
  assume "bytes_consistent \<sigma>"
  then show ?thesis using Do_serverEvent by (simp add: handleProcessingEvent_bytes)
next
  case (Do_uploadSettled outcome)
  assume "bytes_consistent \<sigma>"
  then show ?thesis using Do_uploadSettled
    by (cases outcome)
       (auto simp: bytes_consistent_def computeUploadedBytes_def uploadSettled_def Let_def)
qed (auto simp: bytes_consistent_def computeUploadedBytes_def removeEntry_def beginUpload_def
       abortCurrent_def reset_def cleanup_def closeModal_def setSelectedTags_def
       handleUploadProgress_def Let_def)

lemma run_bytes: "bytes_consistent \<sigma> \<Longrightarrow> bytes_consistent (run X as \<sigma>)"
  by (induction as arbitrary: \<sigma>) (simp_all add: step_bytes)

lemma create_bytes: "bytes_consistent (createPhotoUploadStore X seq fs tags)"
  by (simp add: bytes_consistent_def createPhotoUploadStore_def calculateUploadedBytes_createFileEntries)

lemma handleProcessingEvent_companions:
  "companions_consistent X \<sigma> \<Longrightarrow> companions_consistent X (handleProcessingEvent X now event \<sigma>)"
  by (cases event) (auto simp: companions_consistent_def Let_def split: option.splits)

lemma step_companions: "companions_consistent X \<sigma> \<Longrightarrow> companions_consistent X (step X a \<sigma>)"
proof (cases a)
  case (Do_serverEvent now event)
  assume "companions_consistent X \<sigma>"
  then show ?thesis using Do_serverEvent by (simp add: handleProcessingEvent_companions)
next
  case (Do_uploadSettled outcome)
  assume "companions_consistent X \<sigma>"
  then show ?thesis using Do_uploadSettled
    by (cases outcome) (auto simp: companions_consistent_def uploadSettled_def Let_def)
qed (auto simp: companions_consistent_def removeEntry_def beginUpload_def
       abortCurrent_def reset_def cleanup_def closeModal_def setSelectedTags_def
       handleUploadProgress_def Let_def)

lemma run_companions: "companions_consistent X \<sigma> \<Longrightarrow> companions_consistent X (run X as \<sigma>)"
  by (induction as arbitrary: \<sigma>) (simp_all add: step_companions)

lemma create_companions: "companions_consistent X (createPhotoUploadStore X seq fs tags)"
  by (simp add: companions_consistent_def createPhotoUploadStore_def)

lemma example_unmatched_state:
  "unmatchedMovFiles (state example_unmatched) = [\<lparr>file_name = ''clip.mov'', file_size = 30\<rparr>]"
  "phase (state example_unmatched) = Ph_review"
  "files (state example_unmatched) =
     [\<lparr>file_name = ''a.jpg'', file_size = 10\<rparr>, \<lparr>file_name = ''clip.mov'', file_size = 30\<rparr>]"
  by (simp_all add: example_unmatched_def createPhotoUploadStore_def example_externals_def
      unmatchedCompanions_def isMov_def extension_def base_name_def)

lemma example_uploading_closure:
  "processingLogSequence example_uploading = 0"
  by (simp add: example_uploading_def beginUpload_def Let_def example_review_state
      example_review_closure example_files_def)

lemma string_of_nat_2: "string_of_nat 2 = ''2''"
  by code_simp

subsection \<open>The logs along a run\<close>

lemma handleProcessingEvent_keeps_logs:
  assumes "\<And>message level timestamp. event \<noteq> Ev_log message level timestamp"
    and "\<And>summary' totals' eventOptions. event \<noteq> Ev_start summary' totals' eventOptions"
  shows "processingLogs (state (handleProcessingEvent X now event \<sigma>)) = processingLogs (state \<sigma>)"
    and "processingLogSequence (handleProcessingEvent X now event \<sigma>) = processingLogSequence \<sigma>"
  using assms by (cases event; simp add: Let_def split: option.splits)+

lemma step_keeps_logs:
  assumes "keepsLogs a" and "a \<noteq> Do_otherStoreLog"
    and "\<And>now message level timestamp. a \<noteq> Do_serverEvent now (Ev_log message level timestamp)"
  shows "processingLogs (state (step X a \<sigma>)) = processingLogs (state \<sigma>)"
    and "processingLogSequence (step X a \<sigma>) = processingLogSequence \<sigma>"
    and "receivedLogs seq (a # rest) = receivedLogs seq rest"
proof -
  show "processingLogs (state (step X a \<sigma>)) = processingLogs (state \<sigma>)"
  proof (cases a)
    case (Do_serverEvent now event)
    then show ?thesis
      using assms by (cases event) (simp_all add: Let_def split: option.splits)
  next
    case (Do_uploadSettled outcome)
    then show ?thesis
      by (cases outcome) (simp_all add: uploadSettled_def Let_def)
  qed (use assms in \<open>simp_all add: removeEntry_def abortCurrent_def cleanup_def closeModal_def
        setSelectedTags_def handleUploadProgress_def Let_def\<close>)
  show "processingLogSequence (step X a \<sigma>) = processingLogSequence \<sigma>"
  proof (cases a)
    case (Do_serverEvent now event)
    then show ?thesis
      using assms by (cases event) (simp_all add: Let_def split: option.splits)
  next
    case (Do_uploadSettled outcome)
    then show ?thesis
      by (cases outcome) (simp_all add: uploadSettled_def Let_def)
  qed (use assms in \<open>simp_all add: removeEntry_def abortCurrent_def cleanup_def closeModal_def
        setSelectedTags_def handleUploadProgress_def Let_def\<close>)
  show "receivedLogs seq (a # rest) = receivedLogs seq rest"
  proof (cases a)
    case (Do_serverEvent now event)
    then show ?thesis
      using assms by (cases event) simp_all
  qed (use assms in simp_all)
qed

lemma step_logs_bounded:
  "length (processingLogs (state \<sigma>)) \<le> MAX_PROCESSING_LOGS \<Longrightarrow>
   length (processingLogs (state (step X a \<sigma>))) \<le> MAX_PROCESSING_LOGS"
proof (cases a)
  case (Do_serverEvent now event)
  assume "length (processingLogs (state \<sigma>)) \<le> MAX_PROCESSING_LOGS"
  then show ?thesis
    using Do_serverEvent
    by (cases event) (simp_all add: Let_def length_slice_last split: option.splits)
next
  case (Do_uploadSettled outcome)
  assume "length (processingLogs (state \<sigma>)) \<le> MAX_PROCESSING_LOGS"
  then show ?thesis
    using Do_uploadSettled by (cases outcome) (simp_all add: uploadSettled_def Let_def)
qed (simp_all add: removeEntry_def beginUpload_def abortCurrent_def reset_def cleanup_def
       closeModal_def setSelectedTags_def handleUploadProgress_def Let_def)

lemma run_logs_bounded:
  "length (processingLogs (state \<sigma>)) \<le> MAX_PROCESSING_LOGS \<Longrightarrow>
   length (processingLogs (state (run X as \<sigma>))) \<le> MAX_PROCESSING_LOGS"
  by (induction as arbitrary: \<sigma>) (simp_all add: step_logs_bounded)

lemma run_logs:
  "length (processingLogs (state \<sigma>)) \<le> MAX_PROCESSING_LOGS \<Longrightarrow> list_all keepsLogs as \<Longrightarrow>
   processingLogs (state (run X as \<sigma>)) =
     slice_last MAX_PROCESSING_LOGS
       (processingLogs (state \<sigma>) @
        map (\<lambda>(seq, clock, message, level, timestamp). mkLogEntry X clock seq message level timestamp)
          (receivedLogs (processingLogSequence \<sigma>) as))"
proof (induction as arbitrary: \<sigma>)
  case Nil
  then show ?case by (simp add: slice_last_short)
next
  case (Cons a as)
  have keeps: "keepsLogs a" and rest: "list_all keepsLogs as"
    using Cons.prems(2) by simp_all
  have bounded: "length (processingLogs (state (step X a \<sigma>))) \<le> MAX_PROCESSING_LOGS"
    using Cons.prems(1) by (rule step_logs_bounded)
  note IH = Cons.IH [OF bounded rest]
  consider (log) now message level timestamp
      where "a = Do_serverEvent now (Ev_log message level timestamp)"
    | (other) "a = Do_otherStoreLog"
    | (silent) "a \<noteq> Do_otherStoreLog"
        "\<And>now message level timestamp. a \<noteq> Do_serverEvent now (Ev_log message level timestamp)"
    by blast
  then show ?case
  proof cases
    case log
    then show ?thesis
      using IH by (simp add: Let_def slice_last_append)
  next
    case other
    then show ?thesis
      using IH by simp
  next
    case silent
    show ?thesis
      using IH step_keeps_logs [OF keeps silent] by simp
  qed
qed

section \<open>The claims\<close>

subsection \<open>C1: a log event before the start event\<close>

text \<open>
  C1 says that a log event is dropped while there is no processing state. The source
  handles the log event before it looks for the processing state: the entry is appended
  to the logs (and the sequence counter advances) also then; only the latest-log
  snapshot is skipped. What holds: without a processing state, a log event changes the
  logs and the counter and nothing else, and the processing state stays absent.
\<close>

theorem log_without_processingState:
  assumes "processingState (state \<sigma>) = None"
  shows "handleProcessingEvent X now (Ev_log message level timestamp) \<sigma> =
           \<sigma>\<lparr>state := (state \<sigma>)\<lparr>processingLogs :=
                 slice_last MAX_PROCESSING_LOGS
                   (processingLogs (state \<sigma>) @
                    [mkLogEntry X now (processingLogSequence \<sigma>) message level timestamp])\<rparr>,
              processingLogSequence := processingLogSequence \<sigma> + 1\<rparr> \<and>
         processingState (state (handleProcessingEvent X now (Ev_log message level timestamp) \<sigma>)) = None"
  using assms by (simp add: set_state_def Let_def)

theorem log_without_processingState_witness:
  "processingState (state example_review) = None \<and>
   processingState (state (handleProcessingEvent example_externals 7
      (Ev_log ''scanning'' ''info'' ''soon'') example_review)) = None \<and>
   processingLogSequence (handleProcessingEvent example_externals 7
      (Ev_log ''scanning'' ''info'' ''soon'') example_review) = 1"
proof -
  have h: "processingState (state example_review) = None"
    by (simp add: example_review_state)
  show ?thesis
    using h log_without_processingState [OF h, of example_externals 7 "''scanning''" "''info''" "''soon''"]
    by (simp add: example_review_closure)
qed

text \<open>In the fresh store, which has no processing state, a log event adds a log entry.\<close>

theorem log_without_processingState_counterexample:
  "processingState (state example_review) = None \<and>
   processingLogs (state example_review) = [] \<and>
   processingLogs (state (handleProcessingEvent example_externals 7
      (Ev_log ''scanning'' ''info'' ''soon'') example_review)) =
     [\<lparr>log_id = ''log-0'', log_message = ''scanning'', log_level = ''info'', log_timestamp = 7\<rparr>]"
  by (simp add: example_review_state example_review_closure mkLogEntry_def string_of_nat_0
      Let_def slice_last_def MAX_PROCESSING_LOGS_def example_externals_def)

subsection \<open>C2: the progress callback\<close>

text \<open>
  C2 says that the progress callback leaves entries in processing, done or error status
  untouched. The source has no such test: every entry whose index the snapshot has
  gets the progress and the uploadedBytes of the snapshot (of its last file with that
  index), whatever its status. What holds: an entry without a matching index is
  unchanged; an entry with one gets both numbers from the snapshot, a pending status
  becomes uploading and any other status stays; no status is demoted.
\<close>

theorem handleUploadProgress_effect:
  "list_all2
     (\<lambda>e e'. (case progressMap snapshot (entry_index e) of
                 None \<Rightarrow> e' = e
               | Some current \<Rightarrow>
                   e' = e\<lparr>entry_status := (if entry_status e = St_pending then St_uploading else entry_status e),
                          entry_progress := snap_progress current,
                          entry_uploadedBytes := snap_uploadedBytes current\<rparr>) \<and>
              status_rank (entry_status e) \<le> status_rank (entry_status e'))
     (uploadEntries (state \<sigma>))
     (uploadEntries (state (handleUploadProgress snapshot \<sigma>)))"
  by (simp add: handleUploadProgress_def list_all2_map2 list_all2_same progressEntry_def
      split: option.splits)

text \<open>A snapshot for index 0 overwrites the numbers of a done entry.\<close>

theorem handleUploadProgress_counterexample:
  "entry_status (hd (uploadEntries (state example_completed))) = St_done \<and>
   entry_uploadedBytes (hd (uploadEntries (state example_completed))) = 10 \<and>
   entry_uploadedBytes (hd (uploadEntries (state
      (handleUploadProgress
         \<lparr>snapshot_files = [\<lparr>snap_index = 0, snap_progress = 1 / 2, snap_uploadedBytes = 5\<rparr>]\<rparr>
         example_completed)))) = 5"
  by (simp add: example_completed_state handleUploadProgress_def progressEntry_def progressMap_def)

subsection \<open>C3: the counters of a stage\<close>

text \<open>
  C3: after a stage or action event applied to a state with a processing state, the
  named stage exists, its total is the normalized total, its processed count is at most
  its total, and a total of 0 makes its status completed.
\<close>

theorem stage_counts_bounded:
  assumes "processingState (state \<sigma>) = Some prev"
    and "event = Ev_stage stage status' processed' total' sm \<or>
         event = Ev_action stage processed' total' sm"
  shows "case processingState (state (handleProcessingEvent X now event \<sigma>)) of
           None \<Rightarrow> False
         | Some ps \<Rightarrow>
             (case stages ps stage of
                None \<Rightarrow> False
              | Some st \<Rightarrow>
                  stage_total st = normalizeStageCount X total'
                    (case stages prev stage of None \<Rightarrow> 0 | Some old \<Rightarrow> stage_total old) \<and>
                  stage_processed st \<le> stage_total st \<and>
                  (stage_total st = 0 \<longrightarrow> stage_status st = ''completed''))"
  using assms by (auto simp: Let_def)

theorem stage_counts_bounded_witness:
  "processingState (state example_processing) \<noteq> None \<and>
   (case processingState (state (handleProcessingEvent example_externals 6
        (Ev_stage ''metadata'' ''running'' (Some 5) (Some 2) ''reading'') example_processing)) of
      None \<Rightarrow> False
    | Some ps \<Rightarrow> stages ps ''metadata'' =
        Some \<lparr>stage_status = ''running'', stage_processed = 2, stage_total = 2\<rparr>) \<and>
   (case processingState (state (handleProcessingEvent example_externals 6
        (Ev_action ''thumbnails'' None (Some 0) ''idle'') example_processing)) of
      None \<Rightarrow> False
    | Some ps \<Rightarrow> stages ps ''thumbnails'' =
        Some \<lparr>stage_status = ''completed'', stage_processed = 0, stage_total = 0\<rparr>)"
proof -
  obtain prev where p: "processingState (state example_processing) = Some prev"
    by (simp add: example_processing_state)
  have s: "stages prev = createStageStateFromTotals example_externals [(''metadata'', 2)]"
    using p by (auto simp: example_processing_state)
  have m: "createStageStateFromTotals example_externals [(''metadata'', 2)] ''metadata'' =
             Some \<lparr>stage_status = ''pending'', stage_processed = 0, stage_total = 2\<rparr>"
          "createStageStateFromTotals example_externals [(''metadata'', 2)] ''thumbnails'' = None"
          "normalizeStageCount example_externals = spec_normalizeStageCount"
    by (simp_all add: example_externals_def)
  show ?thesis
    using p
      stage_counts_bounded [OF p, of "Ev_stage ''metadata'' ''running'' (Some 5) (Some 2) ''reading''"
        "''metadata''" "''running''" "Some 5" "Some 2" "''reading''" example_externals 6]
      stage_counts_bounded [OF p, of "Ev_action ''thumbnails'' None (Some 0) ''idle''"
        "''thumbnails''" "''running''" None "Some 0" "''idle''" example_externals 6]
    by (simp add: Let_def s m spec_normalizeStageCount_def)
qed

subsection \<open>C4: leaving the phases completed and error\<close>

text \<open>
  C4 says that from phase completed or error only \<^verbatim>\<open>reset\<close> changes the phase. The guard of
  \<^verbatim>\<open>beginUpload\<close> stops it in the phases uploading and processing only, so from completed or
  error it starts a new attempt; and the reducer sets the phase on a start, error or
  complete event in any phase. What holds from phase completed or error:
  \<^verbatim>\<open>removeEntry\<close>, \<^verbatim>\<open>abortCurrent\<close>, \<^verbatim>\<open>setSelectedTags\<close>, \<^verbatim>\<open>cleanup\<close>, \<^verbatim>\<open>closeModal\<close>, a progress
  snapshot and a log, stage, action or unknown event keep the phase; \<^verbatim>\<open>reset\<close> gives
  review; \<^verbatim>\<open>beginUpload\<close> gives uploading unless there are unmatched companion files or no
  files, when it keeps the phase; a start event gives processing, an error event gives
  error, and a complete event gives completed when there is a processing state and keeps
  the phase when there is none.
\<close>

theorem terminal_phase_transitions:
  assumes "phase (state \<sigma>) = Ph_completed \<or> phase (state \<sigma>) = Ph_error"
  shows "phase (state (removeEntry X entry \<sigma>)) = phase (state \<sigma>) \<and>
         phase (state (abortCurrent \<sigma>)) = phase (state \<sigma>) \<and>
         phase (state (setSelectedTags tags \<sigma>)) = phase (state \<sigma>) \<and>
         phase (state (cleanup \<sigma>)) = phase (state \<sigma>) \<and>
         phase (state (closeModal \<sigma>)) = phase (state \<sigma>) \<and>
         phase (state (handleUploadProgress snapshot \<sigma>)) = phase (state \<sigma>) \<and>
         phase (state (handleProcessingEvent X now (Ev_log message level timestamp) \<sigma>)) = phase (state \<sigma>) \<and>
         phase (state (handleProcessingEvent X now (Ev_stage stage status' processed' total' sm) \<sigma>)) = phase (state \<sigma>) \<and>
         phase (state (handleProcessingEvent X now (Ev_action stage processed' total' sm) \<sigma>)) = phase (state \<sigma>) \<and>
         phase (state (handleProcessingEvent X now Ev_other \<sigma>)) = phase (state \<sigma>) \<and>
         phase (state (reset \<sigma>)) = Ph_review \<and>
         phase (state (fst (beginUpload \<sigma>))) =
           (if unmatchedMovFiles (state \<sigma>) \<noteq> [] \<or> files (state \<sigma>) = [] then phase (state \<sigma>)
            else Ph_uploading) \<and>
         phase (state (handleProcessingEvent X now (Ev_start sm tt opts) \<sigma>)) = Ph_processing \<and>
         phase (state (handleProcessingEvent X now (Ev_error message) \<sigma>)) = Ph_error \<and>
         phase (state (handleProcessingEvent X now (Ev_complete sm) \<sigma>)) =
           (if processingState (state \<sigma>) = None then phase (state \<sigma>) else Ph_completed)"
proof -
  have "phase (state (removeEntry X entry \<sigma>)) = phase (state \<sigma>)"
    using assms by (auto simp: removeEntry_def)
  moreover have "phase (state (abortCurrent \<sigma>)) = phase (state \<sigma>)"
    using assms by (auto simp: abortCurrent_def)
  moreover have "phase (state (setSelectedTags tags \<sigma>)) = phase (state \<sigma>)"
    by (simp add: setSelectedTags_def)
  moreover have "phase (state (cleanup \<sigma>)) = phase (state \<sigma>)"
    "phase (state (closeModal \<sigma>)) = phase (state \<sigma>)"
    by (simp_all add: cleanup_def closeModal_def)
  moreover have "phase (state (handleUploadProgress snapshot \<sigma>)) = phase (state \<sigma>)"
    by (simp add: handleUploadProgress_def)
  moreover have "phase (state (handleProcessingEvent X now (Ev_log message level timestamp) \<sigma>)) = phase (state \<sigma>)"
    by (simp add: Let_def)
  moreover have "phase (state (handleProcessingEvent X now (Ev_stage stage status' processed' total' sm) \<sigma>)) = phase (state \<sigma>)"
    "phase (state (handleProcessingEvent X now (Ev_action stage processed' total' sm) \<sigma>)) = phase (state \<sigma>)"
    "phase (state (handleProcessingEvent X now Ev_other \<sigma>)) = phase (state \<sigma>)"
    by (simp_all add: Let_def split: option.splits)
  moreover have "phase (state (reset \<sigma>)) = Ph_review"
    by (simp add: reset_def Let_def)
  moreover have "phase (state (fst (beginUpload \<sigma>))) =
           (if unmatchedMovFiles (state \<sigma>) \<noteq> [] \<or> files (state \<sigma>) = [] then phase (state \<sigma>)
            else Ph_uploading)"
    using assms by (auto simp: beginUpload_def Let_def)
  moreover have "phase (state (handleProcessingEvent X now (Ev_start sm tt opts) \<sigma>)) = Ph_processing"
    "phase (state (handleProcessingEvent X now (Ev_error message) \<sigma>)) = Ph_error"
    "phase (state (handleProcessingEvent X now (Ev_complete sm) \<sigma>)) =
           (if processingState (state \<sigma>) = None then phase (state \<sigma>) else Ph_completed)"
    by (auto split: option.splits)
  ultimately show ?thesis by simp
qed

theorem terminal_phase_transitions_witness:
  "phase (state example_failed) = Ph_error \<and>
   phase (state (abortCurrent example_failed)) = Ph_error \<and>
   phase (state (reset example_failed)) = Ph_review \<and>
   phase (state (fst (beginUpload example_failed))) = Ph_uploading \<and>
   phase (state example_completed) = Ph_completed \<and>
   phase (state (handleUploadProgress \<lparr>snapshot_files = []\<rparr> example_completed)) = Ph_completed"
proof -
  have e: "phase (state example_failed) = Ph_completed \<or> phase (state example_failed) = Ph_error"
    by (simp add: example_failed_state)
  have c: "phase (state example_completed) = Ph_completed \<or> phase (state example_completed) = Ph_error"
    by (simp add: example_completed_state)
  show ?thesis
    using terminal_phase_transitions [OF e, of example_externals]
      terminal_phase_transitions [OF c, of example_externals _ _ "\<lparr>snapshot_files = []\<rparr>"]
    by (simp add: example_failed_state example_completed_state example_files_def)
qed

text \<open>
  After a failed upload, \<^verbatim>\<open>beginUpload\<close> leaves phase error for uploading; and after the
  user has stopped the processing, a complete event leaves phase error for completed.
\<close>

theorem terminal_phase_counterexample:
  "phase (state example_failed) = Ph_error \<and>
   phase (state (fst (beginUpload example_failed))) = Ph_uploading \<and>
   phase (state example_aborted) = Ph_error \<and>
   phase (state (handleProcessingEvent example_externals 9 (Ev_complete ''finished'') example_aborted)) =
     Ph_completed"
  by (simp add: example_failed_state example_aborted_state beginUpload_def Let_def example_files_def)

subsection \<open>C5: the bounded log\<close>

text \<open>
  C5: after a start event, whatever reaches the store, the logs hold at most 200 entries.
  As long as nothing begins a new log (\<^verbatim>\<open>reset\<close>, \<^verbatim>\<open>beginUpload\<close>, another start event),
  and however the log events are interleaved with other events, progress snapshots and
  operations, the logs are the last 200 of the log events received, in the order of
  arrival, all of them while there are fewer: each entry has the message and the level
  of its payload, the parsed timestamp of its payload (the clock reading when it does
  not parse), and the sequence number the counter had when the event arrived.
\<close>

theorem logs_bounded_recent:
  "length (processingLogs (state (run X as
      (handleProcessingEvent X now (Ev_start sm tt opts) \<sigma>)))) \<le> 200 \<and>
   (list_all keepsLogs as \<longrightarrow>
      processingLogs (state (run X as (handleProcessingEvent X now (Ev_start sm tt opts) \<sigma>))) =
        drop (length (receivedLogs (processingLogSequence \<sigma>) as) - 200)
          (map (\<lambda>(seq, clock, message, level, timestamp).
                  \<lparr>log_id = ''log-'' @ string_of_nat seq,
                   log_message = message,
                   log_level = level,
                   log_timestamp = (case Date_parse X timestamp of None \<Rightarrow> clock | Some t \<Rightarrow> t)\<rparr>)
             (receivedLogs (processingLogSequence \<sigma>) as)))"
proof (intro conjI impI)
  let ?\<sigma>0 = "handleProcessingEvent X now (Ev_start sm tt opts) \<sigma>"
  have empty: "processingLogs (state ?\<sigma>0) = []"
    and seq: "processingLogSequence ?\<sigma>0 = processingLogSequence \<sigma>"
    by simp_all
  have "length (processingLogs (state (run X as ?\<sigma>0))) \<le> MAX_PROCESSING_LOGS"
    by (rule run_logs_bounded) (simp add: empty)
  then show "length (processingLogs (state (run X as ?\<sigma>0))) \<le> 200"
    by (simp add: MAX_PROCESSING_LOGS_def)
  assume keeps: "list_all keepsLogs as"
  have "processingLogs (state (run X as ?\<sigma>0)) =
      slice_last MAX_PROCESSING_LOGS
        (processingLogs (state ?\<sigma>0) @
         map (\<lambda>(seq, clock, message, level, timestamp). mkLogEntry X clock seq message level timestamp)
           (receivedLogs (processingLogSequence ?\<sigma>0) as))"
    by (rule run_logs) (simp_all add: empty keeps)
  then show "processingLogs (state (run X as ?\<sigma>0)) =
        drop (length (receivedLogs (processingLogSequence \<sigma>) as) - 200)
          (map (\<lambda>(seq, clock, message, level, timestamp).
                  \<lparr>log_id = ''log-'' @ string_of_nat seq,
                   log_message = message,
                   log_level = level,
                   log_timestamp = (case Date_parse X timestamp of None \<Rightarrow> clock | Some t \<Rightarrow> t)\<rparr>)
             (receivedLogs (processingLogSequence \<sigma>) as))"
    unfolding empty seq
    by (simp add: slice_last_def MAX_PROCESSING_LOGS_def mkLogEntry_def)
qed

theorem logs_bounded_recent_witness:
  "list_all keepsLogs example_stream \<and>
   processingLogs (state (run example_externals example_stream
      (handleProcessingEvent example_externals 5 (Ev_start ''started'' [(''metadata'', 2)] None)
         example_uploading))) =
     [\<lparr>log_id = ''log-0'', log_message = ''scanning'', log_level = ''info'', log_timestamp = 6\<rparr>,
      \<lparr>log_id = ''log-2'', log_message = ''written'', log_level = ''warn'', log_timestamp = 1000\<rparr>]"
proof -
  have k: "list_all keepsLogs example_stream"
    by (simp add: example_stream_def)
  have r: "receivedLogs (processingLogSequence example_uploading) example_stream =
             [(0, 6, ''scanning'', ''info'', ''soon''),
              (2, 8, ''written'', ''warn'', ''1970-01-01T00:00:01Z'')]"
    by (simp add: example_stream_def example_uploading_closure)
  have d: "Date_parse example_externals ''soon'' = None"
    "Date_parse example_externals ''1970-01-01T00:00:01Z'' = Some 1000"
    by (simp_all add: example_externals_def)
  show ?thesis
    using k logs_bounded_recent [of example_externals example_stream 5 "''started''"
        "[(''metadata'', 2)]" None example_uploading]
    unfolding r by (simp add: d string_of_nat_0 string_of_nat_2)
qed

subsection \<open>C6: the aggregate byte count\<close>

text \<open>
  C6: in every state that a store reaches from its creation, by any operations, progress
  snapshots, server events and settlings of the upload, the field uploadedBytes is the
  sum of the uploadedBytes of the entries.
\<close>

theorem uploadedBytes_is_sum:
  "uploadedBytes (state (run X as (createPhotoUploadStore X seq fs tags))) =
     sum_list (map entry_uploadedBytes (uploadEntries (state (run X as (createPhotoUploadStore X seq fs tags)))))"
proof -
  have "bytes_consistent (run X as (createPhotoUploadStore X seq fs tags))"
    by (rule run_bytes) (rule create_bytes)
  then show ?thesis
    by (simp add: bytes_consistent_def calculateUploadedBytes_def)
qed

subsection \<open>C7: stopping the processing\<close>

text \<open>
  C7: \<^verbatim>\<open>abortCurrent\<close> in phase processing gives phase error with the fixed message, turns
  every processing entry into an error entry and leaves every other entry, the done ones
  among them, as it was; in phase review, completed or error it changes nothing.
\<close>

theorem abortCurrent_effect:
  "(phase (state \<sigma>) = Ph_processing \<longrightarrow>
      phase (state (abortCurrent \<sigma>)) = Ph_error \<and>
      processingError (state (abortCurrent \<sigma>)) = Some PROCESSING_TERMINATED \<and>
      uploadEntries (state (abortCurrent \<sigma>)) =
        map (\<lambda>e. if entry_status e = St_processing then e\<lparr>entry_status := St_error\<rparr> else e)
            (uploadEntries (state \<sigma>))) \<and>
   (phase (state \<sigma>) = Ph_review \<or> phase (state \<sigma>) = Ph_completed \<or> phase (state \<sigma>) = Ph_error \<longrightarrow>
      abortCurrent \<sigma> = \<sigma>)"
proof -
  have same: "(\<lambda>e. e\<lparr>entry_status := (if entry_status e = St_processing then St_error else entry_status e)\<rparr>) =
        (\<lambda>e. if entry_status e = St_processing then e\<lparr>entry_status := St_error\<rparr> else e)"
    by (rule ext) simp
  show ?thesis
    by (auto simp: abortCurrent_def same)
qed

theorem abortCurrent_effect_witness:
  "phase (state example_processing) = Ph_processing \<and>
   phase (state (abortCurrent example_processing)) = Ph_error \<and>
   processingError (state (abortCurrent example_processing)) = Some PROCESSING_TERMINATED \<and>
   map entry_status (uploadEntries (state (abortCurrent example_processing))) = [St_error, St_error] \<and>
   phase (state example_completed) = Ph_completed \<and>
   abortCurrent example_completed = example_completed"
  using abortCurrent_effect [of example_processing] abortCurrent_effect [of example_completed]
  by (simp add: example_processing_state example_completed_state)

subsection \<open>C8: when \<^verbatim>\<open>beginUpload\<close> does nothing\<close>

text \<open>
  C8: \<^verbatim>\<open>beginUpload\<close> returns without calling the transport and without changing the store
  when there are unmatched companion files, when the phase is uploading or processing,
  or when there are no files. And when the partition helper returns the unmatched files
  the spec describes, then in every state a store reaches, a file of the current
  selection that is a companion video and has no image of its base name in the selection
  is among the unmatched files of the state, and \<^verbatim>\<open>beginUpload\<close> does nothing.
\<close>

theorem beginUpload_blocked:
  "(unmatchedMovFiles (state \<sigma>) \<noteq> [] \<or> phase (state \<sigma>) = Ph_uploading \<or>
    phase (state \<sigma>) = Ph_processing \<or> files (state \<sigma>) = [] \<longrightarrow>
      beginUpload \<sigma> = (\<sigma>, False)) \<and>
   ((\<lambda>selection. fst (collectUnmatchedMovFiles X selection)) = unmatchedCompanions isVideo isImage \<and>
    f \<in> set (files (state (run X as (createPhotoUploadStore X seq fs tags)))) \<and>
    isVideo f \<and>
    \<not> list_ex (\<lambda>g. isImage g \<and> base_name (file_name g) = base_name (file_name f))
          (files (state (run X as (createPhotoUploadStore X seq fs tags)))) \<longrightarrow>
      f \<in> set (unmatchedMovFiles (state (run X as (createPhotoUploadStore X seq fs tags)))) \<and>
      beginUpload (run X as (createPhotoUploadStore X seq fs tags)) =
        (run X as (createPhotoUploadStore X seq fs tags), False))"
proof (intro conjI impI)
  assume "unmatchedMovFiles (state \<sigma>) \<noteq> [] \<or> phase (state \<sigma>) = Ph_uploading \<or>
          phase (state \<sigma>) = Ph_processing \<or> files (state \<sigma>) = []"
  then show "beginUpload \<sigma> = (\<sigma>, False)"
    by (auto simp: beginUpload_def Let_def)
next
  let ?\<tau> = "run X as (createPhotoUploadStore X seq fs tags)"
  assume h: "(\<lambda>selection. fst (collectUnmatchedMovFiles X selection)) = unmatchedCompanions isVideo isImage \<and>
    f \<in> set (files (state ?\<tau>)) \<and> isVideo f \<and>
    \<not> list_ex (\<lambda>g. isImage g \<and> base_name (file_name g) = base_name (file_name f)) (files (state ?\<tau>))"
  have "companions_consistent X ?\<tau>"
    by (rule run_companions) (rule create_companions)
  then have "unmatchedMovFiles (state ?\<tau>) = fst (collectUnmatchedMovFiles X (files (state ?\<tau>)))"
    by (simp add: companions_consistent_def)
  also have "\<dots> = unmatchedCompanions isVideo isImage (files (state ?\<tau>))"
    using h by (metis (no_types))
  finally have u: "unmatchedMovFiles (state ?\<tau>) = unmatchedCompanions isVideo isImage (files (state ?\<tau>))" .
  show member: "f \<in> set (unmatchedMovFiles (state ?\<tau>))"
    unfolding u using h by (simp add: unmatchedCompanions_def)
  then have "unmatchedMovFiles (state ?\<tau>) \<noteq> []"
    by auto
  then show "beginUpload ?\<tau> = (?\<tau>, False)"
    by (simp add: beginUpload_def Let_def)
qed

theorem beginUpload_blocked_witness:
  "unmatchedMovFiles (state example_unmatched) \<noteq> [] \<and>
   beginUpload example_unmatched = (example_unmatched, False) \<and>
   phase (state example_uploading) = Ph_uploading \<and>
   beginUpload example_uploading = (example_uploading, False) \<and>
   \<lparr>file_name = ''clip.mov'', file_size = 30\<rparr> \<in> set (files (state
      (run example_externals [Do_setSelectedTags [''trip'']] example_unmatched))) \<and>
   isMov \<lparr>file_name = ''clip.mov'', file_size = 30\<rparr> \<and>
   \<lparr>file_name = ''clip.mov'', file_size = 30\<rparr> \<in> set (unmatchedMovFiles (state
      (run example_externals [Do_setSelectedTags [''trip'']] example_unmatched))) \<and>
   beginUpload (run example_externals [Do_setSelectedTags [''trip'']] example_unmatched) =
     (run example_externals [Do_setSelectedTags [''trip'']] example_unmatched, False)"
proof -
  let ?clip = "\<lparr>file_name = ''clip.mov'', file_size = 30\<rparr>"
  let ?\<tau> = "run example_externals [Do_setSelectedTags [''trip'']] example_unmatched"
  have f: "files (state ?\<tau>) = [\<lparr>file_name = ''a.jpg'', file_size = 10\<rparr>, ?clip]"
    by (simp add: setSelectedTags_def example_unmatched_state)
  have x: "(\<lambda>selection. fst (collectUnmatchedMovFiles example_externals selection)) =
             unmatchedCompanions isMov (\<lambda>g. \<not> isMov g)"
    by (simp add: example_externals_def)
  have v: "isMov ?clip"
    by (simp add: isMov_def extension_def)
  have n: "\<not> list_ex (\<lambda>g. \<not> isMov g \<and> base_name (file_name g) = base_name (file_name ?clip))
               (files (state ?\<tau>))"
    unfolding f by (simp add: isMov_def extension_def base_name_def)
  have m: "?clip \<in> set (files (state ?\<tau>))"
    unfolding f by simp
  have r: "?clip \<in> set (unmatchedMovFiles (state ?\<tau>)) \<and> beginUpload ?\<tau> = (?\<tau>, False)"
    using x m v n
      beginUpload_blocked [where X = example_externals and isVideo = isMov
        and isImage = "\<lambda>g. \<not> isMov g" and f = ?clip and seq = 0 and tags = "[]"
        and as = "[Do_setSelectedTags [''trip'']] :: (string, (string \<times> int) list) Action list"
        and fs = "[\<lparr>file_name = ''a.jpg'', file_size = 10\<rparr>, \<lparr>file_name = ''clip.mov'', file_size = 30\<rparr>]",
        THEN conjunct2]
    unfolding example_unmatched_def by blast
  show ?thesis
    using beginUpload_blocked [THEN conjunct1, of example_unmatched]
      beginUpload_blocked [THEN conjunct1, of example_uploading] r m v
    by (simp add: example_unmatched_state example_uploading_state)
qed

subsection \<open>C9: the tag selection\<close>

text \<open>
  C9 says that \<^verbatim>\<open>setSelectedTags\<close> changes nothing outside the review phase. The source
  has no guard: the setter overwrites the tags in every phase. What holds is that in
  every phase the tags become the given ones and nothing else changes.
\<close>

theorem setSelectedTags_any_phase:
  "selectedTags (state (setSelectedTags tags \<sigma>)) = tags \<and>
   setSelectedTags tags \<sigma> = \<sigma>\<lparr>state := (state \<sigma>)\<lparr>selectedTags := tags\<rparr>\<rparr>"
  by (simp add: setSelectedTags_def set_state_def)

text \<open>While the two files are uploading, the tags still change.\<close>

theorem setSelectedTags_counterexample:
  "phase (state example_uploading) = Ph_uploading \<and>
   selectedTags (state example_uploading) = [] \<and>
   selectedTags (state (setSelectedTags [''trip''] example_uploading)) = [''trip'']"
  by (simp add: setSelectedTags_def example_uploading_state)

subsection \<open>C10: the complete event and the entries\<close>

text \<open>
  C10: with a processing state present, a complete event sets the progress of every
  entry to 1 and its uploadedBytes to its size, whatever its status; only a processing
  entry changes status (to done), so an error or pending entry keeps its status and is
  nevertheless forced to full progress.
\<close>

theorem complete_forces_progress:
  assumes "processingState (state \<sigma>) = Some prev"
  shows "list_all2
           (\<lambda>e e'. entry_progress e' = 1 \<and> entry_uploadedBytes e' = entry_size e \<and>
                    entry_status e' = (if entry_status e = St_processing then St_done else entry_status e) \<and>
                    entry_index e' = entry_index e \<and> entry_name e' = entry_name e \<and>
                    entry_size e' = entry_size e)
           (uploadEntries (state \<sigma>))
           (uploadEntries (state (handleProcessingEvent X now (Ev_complete sm) \<sigma>)))"
  using assms by (simp add: list_all2_map2 list_all2_same)

theorem complete_forces_progress_witness:
  "processingState (state example_aborted) \<noteq> None \<and>
   map entry_status (uploadEntries (state example_aborted)) = [St_error, St_error] \<and>
   map entry_status (uploadEntries (state
      (handleProcessingEvent example_externals 9 (Ev_complete ''finished'') example_aborted))) = [St_error, St_error] \<and>
   map entry_progress (uploadEntries (state
      (handleProcessingEvent example_externals 9 (Ev_complete ''finished'') example_aborted))) = [1, 1] \<and>
   map entry_uploadedBytes (uploadEntries (state
      (handleProcessingEvent example_externals 9 (Ev_complete ''finished'') example_aborted))) = [10, 20]"
proof -
  obtain prev where p: "processingState (state example_aborted) = Some prev"
    by (simp add: example_aborted_state)
  show ?thesis
    using complete_forces_progress [OF p, of example_externals 9 "''finished''"]
    by (auto simp: example_aborted_state list_all2_Cons1)
qed

end
